theory Spec2Isabelle
  imports Complex_Main "HOL-Library.Sublist"
begin

section \<open>Calendar voice bot: the server's action executor and transcription selection\<close>

text \<open>
  A shallow embedding of the server module of the calendar voice bot: the event store
  (\<open>loadEvents\<close>, \<open>saveEvents\<close>), the id generator (\<open>generateId\<close>), the action
  executor (\<open>executeAction\<close>) and the transcript selection of the voice endpoint.

  Strings are lists of characters. \<open>String.prototype.toLowerCase\<close> is a built-in of the
  JavaScript runtime and is not fixed here: it is a parameter, so every property below
  holds for whatever case folding the runtime applies, to ASCII and to any other text.
  A JSON field that may be missing, \<open>null\<close> or \<open>undefined\<close> is an \<open>option\<close>.
\<close>

subsection \<open>Strings\<close>

text \<open>
  A case folding is a function on strings that maps the empty string to the empty
  string, as \<open>''.toLowerCase()\<close> is \<open>''\<close>; nothing else is assumed of it.
  \<open>toLowerCase F s\<close> is \<open>s.toLowerCase()\<close> in a runtime whose folding is \<open>F\<close>.
\<close>

typedef case_folding = "{f :: string \<Rightarrow> string. f [] = []}"
  by (rule exI [of _ "\<lambda>s. s"]) simp

setup_lifting type_definition_case_folding

lift_definition toLowerCase :: "case_folding \<Rightarrow> string \<Rightarrow> string" is "\<lambda>f. f" .

text \<open>\<open>s.startsWith(q)\<close> and \<open>s.includes(q)\<close>: \<open>q\<close> occurs in \<open>s\<close> at position 0, at some position.\<close>

fun startsWith :: "string \<Rightarrow> string \<Rightarrow> bool" where
  "startsWith s [] = True"
| "startsWith [] (c # q) = False"
| "startsWith (d # s) (c # q) = (d = c \<and> startsWith s q)"

fun includes_str :: "string \<Rightarrow> string \<Rightarrow> bool" where
  "includes_str [] q = (q = [])"
| "includes_str (d # s) q = (startsWith (d # s) q \<or> includes_str s q)"

text \<open>\<open>s.substr(2)\<close>: the string from index 2 to its end (empty when \<open>s\<close> is shorter).\<close>

definition substr2 :: "string \<Rightarrow> string" where
  "substr2 s = drop 2 s"

text \<open>\<open>n.toString(36)\<close> for a non-negative integer \<open>n\<close>: its digits in base 36.\<close>

definition digit36 :: "nat \<Rightarrow> char" where
  "digit36 d = ''0123456789abcdefghijklmnopqrstuvwxyz'' ! d"

fun toString36 :: "nat \<Rightarrow> string" where
  "toString36 n = (if n < 36 then [digit36 n] else toString36 (n div 36) @ [digit36 (n mod 36)])"

declare toString36.simps [simp del]

subsection \<open>Data model\<close>

text \<open>
  An event as the executor builds it and as \<open>calendar.json\<close> holds it. The field \<open>id\<close> of
  the source is \<open>id_e\<close> here.
\<close>

record event =
  id_e :: string
  title :: "string option"
  date :: "string option"
  time :: "string option"
  language :: string
  createdAt :: string

text \<open>
  The intent that the language model returns: \<open>intent.action\<close>, \<open>intent.language\<close>,
  \<open>intent.data.title\<close>, \<open>intent.data.date\<close>, \<open>intent.data.time\<close>, \<open>intent.data.query\<close> and
  \<open>intent.response\<close>. The \<open>data\<close> object is always present; each of its fields may be
  missing.
\<close>

record intent =
  action :: string
  intent_language :: string
  data_title :: "string option"
  data_date :: "string option"
  data_time :: "string option"
  data_query :: "string option"
  response :: string

text \<open>What \<open>executeAction\<close> returns: \<open>{ events: updatedEvents, message: resultMessage }\<close>.\<close>

record action_result =
  events :: "event list"
  message :: string

datatype js_error = TypeError | StorageError | TranscriptionError

subsection \<open>The event store\<close>

text \<open>
  The file \<open>calendar.json\<close>. Its content is kept up to \<open>JSON.parse\<close>: either text that
  \<open>JSON.parse\<close> rejects with a \<open>SyntaxError\<close>, or the text that \<open>JSON.stringify\<close> writes
  for an event list, which \<open>JSON.parse\<close> reads back as that list. \<open>writable\<close> says whether
  \<open>fs.writeFile\<close> succeeds, and \<open>writes\<close> counts the completed writes.
\<close>

datatype content = Unparseable | Serialized "event list"

record world =
  calendar_file :: "content option"
  writable :: bool
  writes :: nat

datatype io_error = ENOENT | SyntaxError

definition readFile :: "world \<Rightarrow> io_error + content" where
  "readFile w = (case calendar_file w of None \<Rightarrow> Inl ENOENT | Some c \<Rightarrow> Inr c)"

definition JSON_parse :: "content \<Rightarrow> io_error + event list" where
  "JSON_parse c = (case c of Unparseable \<Rightarrow> Inl SyntaxError | Serialized evs \<Rightarrow> Inr evs)"

text \<open>
  \<open>loadEvents\<close>: the \<open>try\<close> block reads and parses, and the \<open>catch\<close> block returns the empty
  array for whatever was thrown.
\<close>

definition loadEvents :: "world \<Rightarrow> event list" where
  "loadEvents w =
     (case readFile w of
        Inl err \<Rightarrow> []
      | Inr data \<Rightarrow> (case JSON_parse data of Inl err \<Rightarrow> [] | Inr evs \<Rightarrow> evs))"

text \<open>\<open>saveEvents\<close>: the whole list is written; a failed write throws and changes nothing.\<close>

definition saveEvents :: "world \<Rightarrow> event list \<Rightarrow> js_error + world" where
  "saveEvents w evs =
     (if writable w then Inr (w\<lparr>calendar_file := Some (Serialized evs), writes := writes w + 1\<rparr>)
      else Inl StorageError)"

subsection \<open>Clock and random source\<close>

text \<open>
  What one execution takes from the runtime: \<open>Date.now()\<close> in milliseconds, the string
  \<open>Math.random().toString(36)\<close>, \<open>new Date().toISOString()\<close>, and the case folding of
  \<open>toLowerCase\<close>.
\<close>

record env =
  Date_now :: nat
  Math_random36 :: string
  toISOString :: string
  caseFolding :: case_folding

definition generateId :: "env \<Rightarrow> string" where
  "generateId e = toString36 (Date_now e) @ substr2 (Math_random36 e)"

subsection \<open>The action executor\<close>

definition notFoundEn :: string where
  "notFoundEn = ''I couldn'' @ [CHR 0x27] @ ''t find that event.''"

text \<open>The bytes of the Hindi literal as the source file holds them.\<close>

definition notFoundHi :: string where
  "notFoundHi =
    [CHR 0xD1, CHR 0x80, CHR 0xD0, CHR 0xB4, CHR 0xD0, CHR 0xBE, CHR 0xD1, CHR 0x80,
     CHR 0xD0, CHR 0xB5, CHR 0xD0, CHR 0x91, CHR 0xD1, CHR 0x80, CHR 0xD0, CHR 0xB4,
     CHR 0xD0, CHR 0xAD, CHR 0xD1, CHR 0x80, CHR 0xD0, CHR 0xB5, CHR 0xD0, CHR 0x97,
     CHR 0x20, CHR 0xD1, CHR 0x80, CHR 0xD0, CHR 0xB4, CHR 0xE2, CHR 0x95, CHR 0xA1,
     CHR 0xD1, CHR 0x80, CHR 0xD0, CHR 0xB4, CHR 0xE2, CHR 0x95, CHR 0xA3, CHR 0x20,
     CHR 0xD1, CHR 0x80, CHR 0xD0, CHR 0xB4, CHR 0xD0, CHR 0x97, CHR 0xD1, CHR 0x80,
     CHR 0xD0, CHR 0xB4, CHR 0xE2, CHR 0x95, CHR 0xA1, CHR 0xD1, CHR 0x80, CHR 0xD0,
     CHR 0xB5, CHR 0xD0, CHR 0x97, CHR 0xD1, CHR 0x80, CHR 0xD0, CHR 0xB4, CHR 0xD0,
     CHR 0x92, CHR 0xD1, CHR 0x80, CHR 0xD0, CHR 0xB4, CHR 0xD0, CHR 0xAF, CHR 0x20,
     CHR 0xD1, CHR 0x80, CHR 0xD0, CHR 0xB4, CHR 0xD0, CHR 0xB8, CHR 0xD1, CHR 0x80,
     CHR 0xD0, CHR 0xB4, CHR 0xE2, CHR 0x95, CHR 0xA3, CHR 0xD1, CHR 0x80, CHR 0xD0,
     CHR 0xB5, CHR 0xD0, CHR 0x90, CHR 0xD1, CHR 0x80, CHR 0xD0, CHR 0xB4, CHR 0xD0,
     CHR 0x92, CHR 0x20, CHR 0xD1, CHR 0x80, CHR 0xD0, CHR 0xB4, CHR 0xD0, CHR 0xBE,
     CHR 0xD1, CHR 0x80, CHR 0xD0, CHR 0xB4, CHR 0xE2, CHR 0x94, CHR 0x90, CHR 0xD1,
     CHR 0x80, CHR 0xD0, CHR 0xB4, CHR 0xE2, CHR 0x96, CHR 0x93, CHR 0xD1, CHR 0x80,
     CHR 0xD0, CHR 0xB4, CHR 0xE2, CHR 0x95, CHR 0x9B, CHR 0xD1, CHR 0x80, CHR 0xD0,
     CHR 0xB5, CHR 0xD0, CHR 0xB4]"

text \<open>
  The callback of \<open>updatedEvents.filter\<close> in the \<open>DELETE_EVENT\<close> case. In
  \<open>event.time && event.time.includes(query)\<close> a missing or empty field is falsy, and the
  conjunction is then falsy whatever the query is.
\<close>

definition keepEvent :: "case_folding \<Rightarrow> string \<Rightarrow> event \<Rightarrow> bool" where
  "keepEvent F query ev =
     (let matchTime =
            (case time ev of None \<Rightarrow> False | Some t \<Rightarrow> t \<noteq> [] \<and> includes_str t query);
          matchTitle =
            (case title ev of
               None \<Rightarrow> False
             | Some t \<Rightarrow> t \<noteq> [] \<and> includes_str (toLowerCase F t) query);
          matchDate =
            (case date ev of None \<Rightarrow> False | Some d \<Rightarrow> d \<noteq> [] \<and> includes_str d query)
      in \<not> (matchTime \<or> matchTitle \<or> matchDate))"

text \<open>The object literal of the \<open>ADD_EVENT\<close> case.\<close>

definition newEvent :: "env \<Rightarrow> intent \<Rightarrow> event" where
  "newEvent e i =
     \<lparr>id_e = generateId e, title = data_title i, date = data_date i, time = data_time i,
      language = intent_language i, createdAt = toISOString e\<rparr>"

text \<open>
  \<open>executeAction\<close> returns what the promise resolves to, or the error it rejects with,
  together with the world it leaves behind.
\<close>

definition executeAction :: "env \<Rightarrow> world \<Rightarrow> intent \<Rightarrow> (js_error + action_result) \<times> world" where
  "executeAction e w i =
     (let loaded = loadEvents w;
          updatedEvents = loaded;
          resultMessage = response i
      in if action i = ''ADD_EVENT'' then
           (let updatedEvents = updatedEvents @ [newEvent e i] in
            case saveEvents w updatedEvents of
              Inl err \<Rightarrow> (Inl err, w)
            | Inr w' \<Rightarrow> (Inr \<lparr>events = updatedEvents, message = resultMessage\<rparr>, w'))
         else if action i = ''LIST_EVENTS'' then
           (Inr \<lparr>events = updatedEvents, message = resultMessage\<rparr>, w)
         else if action i = ''DELETE_EVENT'' then
           (case data_query i of
              None \<Rightarrow> (Inl TypeError, w)
            | Some q \<Rightarrow>
               (let query = toLowerCase (caseFolding e) q;
                    beforeCount = length updatedEvents;
                    updatedEvents = filter (keepEvent (caseFolding e) query) updatedEvents;
                    deletedCount = beforeCount - length updatedEvents
                in case saveEvents w updatedEvents of
                     Inl err \<Rightarrow> (Inl err, w)
                   | Inr w' \<Rightarrow>
                      (let resultMessage =
                         (if deletedCount = 0
                          then (if intent_language i = ''hi'' then notFoundHi else notFoundEn)
                          else resultMessage)
                       in (Inr \<lparr>events = updatedEvents, message = resultMessage\<rparr>, w'))))
         else (Inr \<lparr>events = updatedEvents, message = resultMessage\<rparr>, w))"

subsection \<open>Transcript selection of the voice endpoint\<close>

text \<open>
  One recognition attempt, \<open>{ result, error }\<close>. \<open>alternative\<close> is what the optional chain
  \<open>result?.results?.channels?.[0]?.alternatives?.[0]\<close> reaches, if anything; its
  \<open>transcript\<close> and \<open>confidence\<close> may be missing. A confidence is a finite number.
\<close>

record alternative =
  transcript :: "string option"
  confidence :: "rat option"

record attempt =
  error :: bool
  alternative :: "alternative option"

text \<open>\<open>... ?.transcript || ''\<close> and \<open>... ?.confidence || 0\<close>.\<close>

definition textOf :: "attempt \<Rightarrow> string" where
  "textOf a =
     (case alternative a of
        None \<Rightarrow> []
      | Some alt \<Rightarrow> (case transcript alt of None \<Rightarrow> [] | Some t \<Rightarrow> if t = [] then [] else t))"

definition confidenceOf :: "attempt \<Rightarrow> rat" where
  "confidenceOf a =
     (case alternative a of
        None \<Rightarrow> 0
      | Some alt \<Rightarrow> (case confidence alt of None \<Rightarrow> 0 | Some c \<Rightarrow> if c = 0 then 0 else c))"

text \<open>
  The transcription step of \<open>POST /api/voice\<close>, from the two attempts to
  \<open>(transcribedText, detectedLanguage)\<close>, or the error thrown.
\<close>

definition transcribe :: "attempt \<Rightarrow> attempt \<Rightarrow> js_error + (string \<times> string)" where
  "transcribe en hi =
     (if error en \<and> error hi then Inl TranscriptionError
      else
        (let enText = textOf en;
             hiText = textOf hi;
             enConfidence = confidenceOf en;
             hiConfidence = confidenceOf hi;
             transcribedText = (if hiConfidence > enConfidence then hiText else enText);
             detectedLanguage = (if hiConfidence > enConfidence then ''hi'' else ''en'')
         in Inr (transcribedText, detectedLanguage)))"

subsection \<open>Observing an execution\<close>

text \<open>
  The event list and the message that an execution returns (\<open>None\<close> when it throws), and
  the collection a later request would load from the world it leaves behind.
\<close>

definition returnedEvents :: "(js_error + action_result) \<times> world \<Rightarrow> event list option" where
  "returnedEvents out = (case fst out of Inl err \<Rightarrow> None | Inr r \<Rightarrow> Some (events r))"

definition returnedMessage :: "(js_error + action_result) \<times> world \<Rightarrow> string option" where
  "returnedMessage out = (case fst out of Inl err \<Rightarrow> None | Inr r \<Rightarrow> Some (message r))"

definition storedEvents :: "(js_error + action_result) \<times> world \<Rightarrow> event list" where
  "storedEvents out = loadEvents (snd out)"

text \<open>
  A sequence of requests, each with the environment it reads: the world after the last
  one, and the events that the \<open>ADD_EVENT\<close> requests among them construct.
\<close>

fun run :: "world \<Rightarrow> (env \<times> intent) list \<Rightarrow> world" where
  "run w [] = w"
| "run w (step # steps) = run (snd (executeAction (fst step) w (snd step))) steps"

definition isAdd :: "env \<times> intent \<Rightarrow> bool" where
  "isAdd step = (action (snd step) = ''ADD_EVENT'')"

definition createdEvents :: "(env \<times> intent) list \<Rightarrow> event list" where
  "createdEvents steps = map (\<lambda>step. newEvent (fst step) (snd step)) (filter isAdd steps)"

subsection \<open>The delete rule in words\<close>

text \<open>
  The rule as the specification words it, for a runtime with case folding \<open>F\<close>: the
  query, normalised to lower case, is a case-insensitive substring of the time, or a
  case-insensitive substring of the title, or a substring of the date. \<open>sublist q s\<close>
  says that \<open>q\<close> occurs in \<open>s\<close> as a contiguous run of characters.
\<close>

definition caseInsensitiveSubstring :: "case_folding \<Rightarrow> string \<Rightarrow> string \<Rightarrow> bool" where
  "caseInsensitiveSubstring F q s = sublist (toLowerCase F q) (toLowerCase F s)"

definition specDeleteMatch :: "case_folding \<Rightarrow> string \<Rightarrow> event \<Rightarrow> bool" where
  "specDeleteMatch F q ev =
     (let query = toLowerCase F q in
        (case time ev of None \<Rightarrow> False | Some t \<Rightarrow> caseInsensitiveSubstring F query t)
      \<or> (case title ev of None \<Rightarrow> False | Some t \<Rightarrow> caseInsensitiveSubstring F query t)
      \<or> (case date ev of None \<Rightarrow> False | Some d \<Rightarrow> sublist query d))"

text \<open>
  The rule that the executor applies: the lower-cased query occurs in the time as it is
  stored, or in the lower-cased title, or in the date as it is stored, and only a field
  that is present and not empty can match.
\<close>

definition deleteMatch :: "case_folding \<Rightarrow> string \<Rightarrow> event \<Rightarrow> bool" where
  "deleteMatch F q ev =
     (let query = toLowerCase F q in
        (case time ev of None \<Rightarrow> False | Some t \<Rightarrow> t \<noteq> [] \<and> sublist query t)
      \<or> (case title ev of None \<Rightarrow> False | Some t \<Rightarrow> t \<noteq> [] \<and> sublist query (toLowerCase F t))
      \<or> (case date ev of None \<Rightarrow> False | Some d \<Rightarrow> d \<noteq> [] \<and> sublist query d))"

definition nonemptyField :: "string option \<Rightarrow> bool" where
  "nonemptyField f = (case f of None \<Rightarrow> False | Some s \<Rightarrow> s \<noteq> [])"


subsection \<open>Sample inputs\<close>

text \<open>
  The folding of the samples lower-cases the letters \<open>A\<close> to \<open>Z\<close> and keeps every other
  character. The strings of the samples are ASCII text, on which this is what
  \<open>toLowerCase\<close> does in JavaScript.
\<close>

definition asciiLowerChar :: "char \<Rightarrow> char" where
  "asciiLowerChar c =
     (case map_of (zip ''ABCDEFGHIJKLMNOPQRSTUVWXYZ'' ''abcdefghijklmnopqrstuvwxyz'') c of
        None \<Rightarrow> c
      | Some l \<Rightarrow> l)"

lift_definition asciiFolding :: case_folding is "map asciiLowerChar"
  by simp

definition emptyWorld :: world where
  "emptyWorld = \<lparr>calendar_file = None, writable = True, writes = 0\<rparr>"

text \<open>
  Two readings, one millisecond apart. \<open>0.4fzyo82mvy\<close> is how \<open>toString(36)\<close> prints the
  double \<open>555996395596651 / 2^52\<close>, and \<open>0.pgerv2yaovo\<close> how it prints
  \<open>3184525836262886 / 2^52\<close>.
\<close>

definition sampleEnv :: env where
  "sampleEnv =
     \<lparr>Date_now = 1730548800000, Math_random36 = ''0.4fzyo82mvy'',
      toISOString = ''2024-11-02T12:00:00.000Z'', caseFolding = asciiFolding\<rparr>"

definition laterEnv :: env where
  "laterEnv =
     \<lparr>Date_now = 1730548800001, Math_random36 = ''0.pgerv2yaovo'',
      toISOString = ''2024-11-02T12:00:00.001Z'', caseFolding = asciiFolding\<rparr>"

definition meeting :: event where
  "meeting =
     \<lparr>id_e = ''m3042o004fzyo82mvy'', title = Some ''Meeting with John'',
      date = Some ''2024-11-03'', time = Some ''15:00'', language = ''en'',
      createdAt = ''2024-11-02T12:00:00.000Z''\<rparr>"

definition lunch :: event where
  "lunch =
     \<lparr>id_e = ''m2yj9ww0pgerv2yaovo'', title = Some ''Team Lunch'', date = Some ''2024-11-04'',
      time = Some ''1 PM'', language = ''en'', createdAt = ''2024-11-01T09:30:00.000Z''\<rparr>"

definition blank :: event where
  "blank =
     \<lparr>id_e = ''m2yjb76o4fzyo82mvy'', title = Some [], date = Some [], time = Some [],
      language = ''en'', createdAt = ''2024-11-01T09:31:00.000Z''\<rparr>"

definition storeOf :: "event list \<Rightarrow> world" where
  "storeOf evs = \<lparr>calendar_file = Some (Serialized evs), writable = True, writes = 0\<rparr>"

definition addMeeting :: intent where
  "addMeeting =
     \<lparr>action = ''ADD_EVENT'', intent_language = ''en'',
      data_title = Some ''Meeting with John'', data_date = Some ''2024-11-03'',
      data_time = Some ''15:00'', data_query = None,
      response = ''I have scheduled a meeting with John for tomorrow at 3 PM.''\<rparr>"

definition addLunch :: intent where
  "addLunch =
     \<lparr>action = ''ADD_EVENT'', intent_language = ''en'', data_title = Some ''Team Lunch'',
      data_date = Some ''2024-11-04'', data_time = Some ''13:00'', data_query = None,
      response = ''I have scheduled Team Lunch.''\<rparr>"

definition listIntent :: intent where
  "listIntent =
     \<lparr>action = ''LIST_EVENTS'', intent_language = ''en'', data_title = None,
      data_date = None, data_time = None, data_query = None,
      response = ''Here are your events for today:''\<rparr>"

definition deleteIntent :: "string \<Rightarrow> string \<Rightarrow> intent" where
  "deleteIntent lang q =
     \<lparr>action = ''DELETE_EVENT'', intent_language = lang, data_title = None,
      data_date = None, data_time = None, data_query = Some q,
      response = ''I will cancel that.''\<rparr>"

definition updateIntent :: intent where
  "updateIntent =
     \<lparr>action = ''UPDATE_EVENT'', intent_language = ''en'', data_title = Some ''Standup'',
      data_date = None, data_time = Some ''10:00'', data_query = None,
      response = ''I have moved your standup.''\<rparr>"

definition failed :: attempt where
  "failed = \<lparr>error = True, alternative = None\<rparr>"

definition heard :: "string \<Rightarrow> rat \<Rightarrow> attempt" where
  "heard t c = \<lparr>error = False, alternative = Some \<lparr>transcript = Some t, confidence = Some c\<rparr>\<rparr>"

section \<open>Properties\<close>

subsection \<open>Auxiliary facts\<close>

lemma toLowerCase_empty: "toLowerCase F [] = []"
  by transfer simp

lemma toLowerCase_asciiFolding: "toLowerCase asciiFolding s = map asciiLowerChar s"
  by transfer simp

lemma startsWith_iff_prefix: "startsWith s q \<longleftrightarrow> prefix q s"
  by (induction s q rule: startsWith.induct) auto

lemma includes_iff_sublist: "includes_str s q \<longleftrightarrow> sublist q s"
  by (induction s) (auto simp: startsWith_iff_prefix sublist_Cons_right)

lemma keepEvent_iff: "keepEvent F (toLowerCase F q) ev \<longleftrightarrow> \<not> deleteMatch F q ev"
  by (simp add: keepEvent_def deleteMatch_def includes_iff_sublist Let_def split: option.splits)

lemma loadEvents_saved:
  "loadEvents (w\<lparr>calendar_file := Some (Serialized evs), writes := n\<rparr>) = evs"
  by (simp add: loadEvents_def readFile_def JSON_parse_def)

lemma loadEvents_storeOf: "loadEvents (storeOf evs) = evs"
  by (simp add: storeOf_def loadEvents_def readFile_def JSON_parse_def)

lemma length_filter_all_iff: "length (filter P xs) = length xs \<longleftrightarrow> (\<forall>x\<in>set xs. P x)"
proof (induction xs)
  case Nil
  show ?case by simp
next
  case (Cons a xs)
  have le: "length (filter P xs) \<le> length xs" by (rule length_filter_le)
  show ?case
  proof (cases "P a")
    case True
    with Cons show ?thesis by simp
  next
    case False
    from le have "length (filter P xs) \<noteq> Suc (length xs)" by arith
    with False show ?thesis by simp
  qed
qed

text \<open>
  A \<open>DELETE_EVENT\<close> execution that has a query and whose write succeeds, in one equation:
  \<open>deletedCount\<close> is 0 exactly when no loaded event matches.
\<close>

lemma executeAction_delete:
  assumes "action i = ''DELETE_EVENT''" and "data_query i = Some q" and "writable w"
  shows "executeAction e w i =
    (Inr \<lparr>events = filter (\<lambda>ev. \<not> deleteMatch (caseFolding e) q ev) (loadEvents w),
          message = (if \<forall>ev\<in>set (loadEvents w). \<not> deleteMatch (caseFolding e) q ev
                     then (if intent_language i = ''hi'' then notFoundHi else notFoundEn)
                     else response i)\<rparr>,
     w\<lparr>calendar_file :=
         Some (Serialized (filter (\<lambda>ev. \<not> deleteMatch (caseFolding e) q ev) (loadEvents w))),
       writes := writes w + 1\<rparr>)"
proof -
  let ?F = "caseFolding e"
  let ?kept = "filter (\<lambda>ev. \<not> deleteMatch ?F q ev) (loadEvents w)"
  have kept: "filter (keepEvent ?F (toLowerCase ?F q)) (loadEvents w) = ?kept"
    by (rule filter_cong) (simp_all add: keepEvent_iff)
  have "length ?kept \<le> length (loadEvents w)"
    by (rule length_filter_le)
  then have "(length (loadEvents w) - length ?kept = 0) \<longleftrightarrow> length ?kept = length (loadEvents w)"
    by arith
  then have count: "(length (loadEvents w) - length ?kept = 0) \<longleftrightarrow>
      (\<forall>ev\<in>set (loadEvents w). \<not> deleteMatch ?F q ev)"
    by (simp only: length_filter_all_iff)
  have "executeAction e w i =
    (Inr \<lparr>events = ?kept,
          message = (if length (loadEvents w) - length ?kept = 0
                     then (if intent_language i = ''hi'' then notFoundHi else notFoundEn)
                     else response i)\<rparr>,
     w\<lparr>calendar_file := Some (Serialized ?kept), writes := writes w + 1\<rparr>)"
    using assms by (simp add: executeAction_def saveEvents_def Let_def kept)
  then show ?thesis
    by (simp only: count)
qed

lemma toLowerCase_samples:
  "toLowerCase asciiFolding ''PM'' = ''pm''" "toLowerCase asciiFolding ''pm'' = ''pm''"
  "toLowerCase asciiFolding ''1 PM'' = ''1 pm''"
  "toLowerCase asciiFolding ''Team Lunch'' = ''team lunch''"
  "toLowerCase asciiFolding ''Meeting with John'' = ''meeting with john''"
  "toLowerCase asciiFolding ''15:00'' = ''15:00''"
  "toLowerCase asciiFolding ''dentist'' = ''dentist''"
  by (simp_all add: toLowerCase_asciiFolding asciiLowerChar_def)

lemma caseFolding_samples:
  "caseFolding sampleEnv = asciiFolding" "caseFolding laterEnv = asciiFolding"
  by (simp_all add: sampleEnv_def laterEnv_def)

lemma generateId_sampleEnv: "generateId sampleEnv = ''m3042o004fzyo82mvy''"
  by (simp add: generateId_def sampleEnv_def substr2_def toString36.simps digit36_def)

lemma deleteMatch_empty_query:
  "deleteMatch F [] ev \<longleftrightarrow>
     nonemptyField (time ev) \<or> nonemptyField (title ev) \<or> nonemptyField (date ev)"
  by (simp add: deleteMatch_def nonemptyField_def toLowerCase_empty split: option.splits)

lemma digit36_inj:
  assumes "a < 36" and "b < 36" and "digit36 a = digit36 b"
  shows "a = b"
proof -
  have d: "distinct ''0123456789abcdefghijklmnopqrstuvwxyz''" by simp
  have l: "length ''0123456789abcdefghijklmnopqrstuvwxyz'' = 36" by simp
  from assms show ?thesis
    unfolding digit36_def using nth_eq_iff_index_eq [OF d, of a b] l by simp
qed

lemma toString36_nonempty: "toString36 n \<noteq> []"
  by (subst toString36.simps) simp

lemma toString36_inj: "toString36 a = toString36 b \<Longrightarrow> a = b"
proof (induction a arbitrary: b rule: toString36.induct)
  case (1 a)
  show ?case
  proof (cases "a < 36")
    case small_a: True
    show ?thesis
    proof (cases "b < 36")
      case True
      with small_a "1.prems" show ?thesis
        by (simp add: toString36.simps [of a] toString36.simps [of b] digit36_inj)
    next
      case False
      with small_a "1.prems" toString36_nonempty [of "b div 36"] show ?thesis
        by (simp add: toString36.simps [of a] toString36.simps [of b])
    qed
  next
    case big_a: False
    show ?thesis
    proof (cases "b < 36")
      case True
      with big_a "1.prems" toString36_nonempty [of "a div 36"] show ?thesis
        by (simp add: toString36.simps [of a] toString36.simps [of b])
    next
      case False
      with big_a "1.prems" have eq: "toString36 (a div 36) = toString36 (b div 36)"
        and dig: "digit36 (a mod 36) = digit36 (b mod 36)"
        by (simp_all add: toString36.simps [of a] toString36.simps [of b])
      from "1.IH" [OF big_a eq] have q: "a div 36 = b div 36" .
      have "a mod 36 = b mod 36"
        by (rule digit36_inj [OF _ _ dig]) simp_all
      with q show ?thesis
        by (metis div_mult_mod_eq)
    qed
  qed
qed

lemma generateId_eq_iff:
  assumes "length (toString36 (Date_now e)) = length (toString36 (Date_now e'))"
  shows "generateId e = generateId e' \<longleftrightarrow>
    Date_now e = Date_now e' \<and> substr2 (Math_random36 e) = substr2 (Math_random36 e')"
  using assms by (auto simp: generateId_def dest: toString36_inj)

lemma executeAction_stored_subset:
  "set (loadEvents (snd (executeAction e w i))) \<subseteq>
     set (loadEvents w) \<union> (if action i = ''ADD_EVENT'' then {newEvent e i} else {})"
  by (auto simp: executeAction_def saveEvents_def Let_def loadEvents_saved split: option.splits)

lemma createdEvents_Cons:
  "createdEvents (step # steps) =
     (if isAdd step then [newEvent (fst step) (snd step)] else []) @ createdEvents steps"
  by (simp add: createdEvents_def)

lemma run_stored_subset:
  "set (loadEvents (run w steps)) \<subseteq> set (loadEvents w) \<union> set (createdEvents steps)"
proof (induction steps arbitrary: w)
  case Nil
  show ?case by simp
next
  case (Cons step steps)
  let ?w' = "snd (executeAction (fst step) w (snd step))"
  have "set (loadEvents (run w (step # steps))) \<subseteq> set (loadEvents ?w') \<union> set (createdEvents steps)"
    using Cons.IH [of ?w'] by simp
  moreover have "set (loadEvents ?w') \<subseteq>
      set (loadEvents w) \<union> (if isAdd step then {newEvent (fst step) (snd step)} else {})"
    using executeAction_stored_subset [of "fst step" w "snd step"] by (simp add: isAdd_def)
  ultimately show ?case
    by (auto simp: createdEvents_Cons split: if_splits)
qed

subsection \<open>Deleting events\<close>

text \<open>
  Claim C1, as the code has it. For every loaded collection and every \<open>DELETE_EVENT\<close>
  intent that carries a query, when the write succeeds the execution returns and stores
  exactly the loaded events, in their order, that do not match, where an event matches
  when the query, lower-cased by \<open>toLowerCase\<close>, is a substring of its non-empty time as
  stored (the time is not lower-cased), or of its non-empty title lower-cased by
  \<open>toLowerCase\<close>, or of its non-empty date as stored. So an event is removed if any of the
  three fields matches, and every other event remains. This holds for every case folding
  of the runtime.
\<close>

theorem delete_removes_matching:
  assumes "action i = ''DELETE_EVENT''" and "data_query i = Some q" and "writable w"
  shows "returnedEvents (executeAction e w i) =
           Some (filter (\<lambda>ev. \<not> deleteMatch (caseFolding e) q ev) (loadEvents w))
       \<and> storedEvents (executeAction e w i) =
           filter (\<lambda>ev. \<not> deleteMatch (caseFolding e) q ev) (loadEvents w)"
  by (simp add: executeAction_delete [OF assms] returnedEvents_def storedEvents_def
      loadEvents_saved)

theorem delete_removes_matching_witness:
  "action (deleteIntent ''en'' ''15:00'') = ''DELETE_EVENT''
   \<and> data_query (deleteIntent ''en'' ''15:00'') = Some ''15:00''
   \<and> writable (storeOf [meeting, lunch, blank])
   \<and> returnedEvents
        (executeAction sampleEnv (storeOf [meeting, lunch, blank]) (deleteIntent ''en'' ''15:00''))
       = Some [lunch, blank]
   \<and> storedEvents
        (executeAction sampleEnv (storeOf [meeting, lunch, blank]) (deleteIntent ''en'' ''15:00''))
       = [lunch, blank]"
proof -
  have a: "action (deleteIntent ''en'' ''15:00'') = ''DELETE_EVENT''"
    and q: "data_query (deleteIntent ''en'' ''15:00'') = Some ''15:00''"
    by (simp_all add: deleteIntent_def)
  have w: "writable (storeOf [meeting, lunch, blank])" by (simp add: storeOf_def)
  have m: "deleteMatch asciiFolding ''15:00'' meeting" "\<not> deleteMatch asciiFolding ''15:00'' lunch"
    "\<not> deleteMatch asciiFolding ''15:00'' blank"
    by (simp_all add: deleteMatch_def meeting_def lunch_def blank_def toLowerCase_samples
        flip: includes_iff_sublist)
  show ?thesis
    using a q w delete_removes_matching [OF a q w, of sampleEnv] m
    by (simp add: loadEvents_storeOf caseFolding_samples)
qed

text \<open>
  Claim C1 as stated fails in two places. The time is compared as stored: the query
  \<open>PM\<close>, lower-cased to \<open>pm\<close>, is a case-insensitive substring of the time \<open>1 PM\<close>, yet
  the event stays. And an empty field never matches: the empty query is a substring of
  the empty time, title and date of an event, yet the event stays.
\<close>

theorem delete_spec_rule_counterexample:
  "specDeleteMatch (caseFolding sampleEnv) ''PM'' lunch
   \<and> returnedEvents (executeAction sampleEnv (storeOf [lunch]) (deleteIntent ''en'' ''PM''))
       = Some [lunch]
   \<and> specDeleteMatch (caseFolding sampleEnv) [] blank
   \<and> returnedEvents (executeAction sampleEnv (storeOf [blank]) (deleteIntent ''en'' []))
       = Some [blank]"
proof -
  have s1: "specDeleteMatch (caseFolding sampleEnv) ''PM'' lunch"
    by (simp add: specDeleteMatch_def caseInsensitiveSubstring_def lunch_def
        caseFolding_samples toLowerCase_samples flip: includes_iff_sublist)
  have s2: "specDeleteMatch (caseFolding sampleEnv) [] blank"
    by (simp add: specDeleteMatch_def caseInsensitiveSubstring_def blank_def toLowerCase_empty)
  have k1: "keepEvent asciiFolding ''pm'' lunch"
    by (simp add: keepEvent_def lunch_def toLowerCase_samples)
  have k2: "keepEvent asciiFolding [] blank"
    by (simp add: keepEvent_def blank_def)
  have e1: "returnedEvents
      (executeAction sampleEnv (storeOf [lunch]) (deleteIntent ''en'' ''PM'')) = Some [lunch]"
    by (simp add: executeAction_def deleteIntent_def loadEvents_storeOf saveEvents_def
        returnedEvents_def Let_def caseFolding_samples toLowerCase_samples k1)
       (simp add: storeOf_def)
  have e2: "returnedEvents
      (executeAction sampleEnv (storeOf [blank]) (deleteIntent ''en'' [])) = Some [blank]"
    by (simp add: executeAction_def deleteIntent_def loadEvents_storeOf saveEvents_def
        returnedEvents_def Let_def caseFolding_samples toLowerCase_empty k2)
       (simp add: storeOf_def)
  from s1 e1 s2 e2 show ?thesis by simp
qed




text \<open>
  Claim C9. With the empty query, an event matches as soon as one of its time, title
  and date is present and not empty. So on a loaded collection in which every event has
  such a field, a \<open>DELETE_EVENT\<close> intent with the empty query removes every event: the
  returned and the stored collection are empty.
\<close>

theorem delete_empty_query_removes_all:
  assumes "action i = ''DELETE_EVENT''" and "data_query i = Some []" and "writable w"
    and "\<forall>ev\<in>set (loadEvents w).
           nonemptyField (time ev) \<or> nonemptyField (title ev) \<or> nonemptyField (date ev)"
  shows "returnedEvents (executeAction e w i) = Some []
       \<and> storedEvents (executeAction e w i) = []"
proof -
  have "filter (\<lambda>ev. \<not> deleteMatch (caseFolding e) [] ev) (loadEvents w) = []"
    using assms(4) by (simp add: filter_empty_conv deleteMatch_empty_query)
  then show ?thesis
    by (simp add: executeAction_delete [OF assms(1-3)] returnedEvents_def storedEvents_def
        loadEvents_saved)
qed

theorem delete_empty_query_removes_all_witness:
  "action (deleteIntent ''en'' []) = ''DELETE_EVENT''
   \<and> data_query (deleteIntent ''en'' []) = Some []
   \<and> writable (storeOf [meeting, lunch])
   \<and> nonemptyField (time meeting) \<and> nonemptyField (title lunch)
   \<and> returnedEvents (executeAction sampleEnv (storeOf [meeting, lunch]) (deleteIntent ''en'' [])) = Some []
   \<and> storedEvents (executeAction sampleEnv (storeOf [meeting, lunch]) (deleteIntent ''en'' [])) = []"
proof -
  have a: "action (deleteIntent ''en'' []) = ''DELETE_EVENT''"
    and q: "data_query (deleteIntent ''en'' []) = Some []"
    by (simp_all add: deleteIntent_def)
  have w: "writable (storeOf [meeting, lunch])" by (simp add: storeOf_def)
  have n: "nonemptyField (time meeting)" "nonemptyField (title lunch)"
    by (simp_all add: nonemptyField_def meeting_def lunch_def)
  then have h: "\<forall>ev\<in>set (loadEvents (storeOf [meeting, lunch])).
           nonemptyField (time ev) \<or> nonemptyField (title ev) \<or> nonemptyField (date ev)"
    by (simp add: loadEvents_storeOf)
  show ?thesis
    using a q w n delete_empty_query_removes_all [OF a q w h, of sampleEnv]
    by simp
qed

subsection \<open>Adding an event\<close>

text \<open>
  Claim C2. For every \<open>ADD_EVENT\<close> intent and every loaded collection, when the write
  succeeds the execution returns and stores the loaded collection with one event
  appended, so one event more; the new event has the title, date and time of the
  intent's data and the intent's language; its id is made in this execution, the clock
  reading of this execution in base 36 followed by the digits of this execution's random
  draw after the first two characters; its creation timestamp is the one read in this
  execution; the message is the intent's response.
\<close>

theorem add_appends_one:
  assumes "action i = ''ADD_EVENT''" and "writable w"
  shows "returnedEvents (executeAction e w i) =
           Some (loadEvents w @
             [\<lparr>id_e = toString36 (Date_now e) @ drop 2 (Math_random36 e),
               title = data_title i, date = data_date i,
               time = data_time i, language = intent_language i,
               createdAt = toISOString e\<rparr>])
       \<and> map_option length (returnedEvents (executeAction e w i)) =
           Some (length (loadEvents w) + 1)
       \<and> returnedMessage (executeAction e w i) = Some (response i)
       \<and> storedEvents (executeAction e w i) =
           loadEvents w @
             [\<lparr>id_e = toString36 (Date_now e) @ drop 2 (Math_random36 e),
               title = data_title i, date = data_date i,
               time = data_time i, language = intent_language i,
               createdAt = toISOString e\<rparr>]"
  using assms
  by (simp add: executeAction_def saveEvents_def newEvent_def generateId_def substr2_def
      returnedEvents_def returnedMessage_def storedEvents_def loadEvents_saved Let_def)

theorem add_appends_one_witness:
  "action addMeeting = ''ADD_EVENT'' \<and> writable (storeOf [lunch])
   \<and> returnedEvents (executeAction sampleEnv (storeOf [lunch]) addMeeting) =
        Some [lunch,
          \<lparr>id_e = ''m3042o004fzyo82mvy'', title = Some ''Meeting with John'',
            date = Some ''2024-11-03'', time = Some ''15:00'', language = ''en'',
            createdAt = ''2024-11-02T12:00:00.000Z''\<rparr>]
   \<and> returnedMessage (executeAction sampleEnv (storeOf [lunch]) addMeeting) =
        Some ''I have scheduled a meeting with John for tomorrow at 3 PM.''
   \<and> storedEvents (executeAction sampleEnv (storeOf [lunch]) addMeeting) = [lunch, meeting]"
proof -
  have a: "action addMeeting = ''ADD_EVENT''" by (simp add: addMeeting_def)
  have w: "writable (storeOf [lunch])" by (simp add: storeOf_def)
  have t: "toString36 (Date_now sampleEnv) = ''m3042o00''"
    by (simp add: sampleEnv_def toString36.simps digit36_def)
  have n: "\<lparr>id_e = toString36 (Date_now sampleEnv) @ drop 2 (Math_random36 sampleEnv),
            title = data_title addMeeting, date = data_date addMeeting,
            time = data_time addMeeting, language = intent_language addMeeting,
            createdAt = toISOString sampleEnv\<rparr> = meeting"
    by (simp add: t meeting_def addMeeting_def) (simp add: sampleEnv_def)
  have r: "response addMeeting = ''I have scheduled a meeting with John for tomorrow at 3 PM.''"
    by (simp add: addMeeting_def)
  show ?thesis
    using a w add_appends_one [OF a w, of sampleEnv]
    by (simp add: loadEvents_storeOf n r) (simp add: meeting_def)
qed

subsection \<open>Listing, and actions the executor does not know\<close>

text \<open>
  Claim C4. For every \<open>LIST_EVENTS\<close> intent the execution returns the loaded collection
  and the intent's response, writes nothing and leaves the world, and so the stored
  collection, as it was.
\<close>

theorem list_is_read_only:
  assumes "action i = ''LIST_EVENTS''"
  shows "executeAction e w i = (Inr \<lparr>events = loadEvents w, message = response i\<rparr>, w)"
  using assms by (simp add: executeAction_def)

theorem list_is_read_only_witness:
  "action listIntent = ''LIST_EVENTS'' \<and>
   executeAction sampleEnv (storeOf [meeting, lunch]) listIntent =
     (Inr \<lparr>events = [meeting, lunch], message = ''Here are your events for today:''\<rparr>,
      storeOf [meeting, lunch])"
proof -
  have a: "action listIntent = ''LIST_EVENTS''" by (simp add: listIntent_def)
  have r: "response listIntent = ''Here are your events for today:''"
    by (simp add: listIntent_def)
  show ?thesis
    using a list_is_read_only [OF a, of sampleEnv "storeOf [meeting, lunch]"]
    by (simp add: loadEvents_storeOf r)
qed

text \<open>
  Claim C10. For every intent whose action is none of \<open>ADD_EVENT\<close>, \<open>LIST_EVENTS\<close> and
  \<open>DELETE_EVENT\<close> the execution does not throw: it returns the loaded collection and the
  intent's response, writes nothing and leaves the world as it was.
\<close>

theorem unknown_action_is_read_only:
  assumes "action i \<noteq> ''ADD_EVENT''" and "action i \<noteq> ''LIST_EVENTS''"
    and "action i \<noteq> ''DELETE_EVENT''"
  shows "executeAction e w i = (Inr \<lparr>events = loadEvents w, message = response i\<rparr>, w)"
  using assms by (simp add: executeAction_def)

theorem unknown_action_is_read_only_witness:
  "action updateIntent \<noteq> ''ADD_EVENT'' \<and> action updateIntent \<noteq> ''LIST_EVENTS''
   \<and> action updateIntent \<noteq> ''DELETE_EVENT''
   \<and> executeAction sampleEnv (storeOf [meeting]) updateIntent =
       (Inr \<lparr>events = [meeting], message = ''I have moved your standup.''\<rparr>, storeOf [meeting])"
proof -
  have a: "action updateIntent \<noteq> ''ADD_EVENT''" and l: "action updateIntent \<noteq> ''LIST_EVENTS''"
    and d: "action updateIntent \<noteq> ''DELETE_EVENT''"
    by (simp_all add: updateIntent_def)
  have r: "response updateIntent = ''I have moved your standup.''"
    by (simp add: updateIntent_def)
  show ?thesis
    using a l d unknown_action_is_read_only [OF a l d, of sampleEnv "storeOf [meeting]"]
    by (simp add: loadEvents_storeOf r)
qed

subsection \<open>Choosing between the two transcripts\<close>

text \<open>
  Claim C5. For every pair of recognition attempts that did not both fail, with
  confidence scores \<open>confidenceOf en\<close> and \<open>confidenceOf hi\<close>, the selection is a function of
  the two scores: the Hindi transcript and the tag \<open>hi\<close> are chosen exactly when the
  Hindi score is strictly greater than the English one; when the English score is
  strictly greater, and also on a tie, the English transcript and the tag \<open>en\<close> are
  chosen.
\<close>

theorem transcribe_prefers_higher_confidence:
  assumes "\<not> (error en \<and> error hi)"
  shows "transcribe en hi =
           Inr (if confidenceOf en < confidenceOf hi then (textOf hi, ''hi'') else (textOf en, ''en''))
       \<and> (confidenceOf hi < confidenceOf en \<longrightarrow> transcribe en hi = Inr (textOf en, ''en''))
       \<and> (confidenceOf hi = confidenceOf en \<longrightarrow> transcribe en hi = Inr (textOf en, ''en''))
       \<and> (map_sum id snd (transcribe en hi) = Inr ''hi'' \<longleftrightarrow> confidenceOf en < confidenceOf hi)"
  using assms by (auto simp: transcribe_def Let_def)

theorem transcribe_prefers_higher_confidence_witness:
  "\<not> (error (heard ''schedule a meeting'' (9/10)) \<and> error (heard ''namaste'' (4/10)))
   \<and> transcribe (heard ''schedule a meeting'' (9/10)) (heard ''namaste'' (4/10)) = Inr (''schedule a meeting'', ''en'')
   \<and> transcribe (heard ''kal'' (3/10)) (heard ''kal sham'' (8/10)) = Inr (''kal sham'', ''hi'')
   \<and> transcribe (heard ''hello'' (1/2)) (heard ''halo'' (1/2)) = Inr (''hello'', ''en'')"
proof -
  have e: "\<not> (error (heard t c) \<and> error (heard t' c'))" for t c t' c'
    by (simp add: heard_def)
  have v: "textOf (heard t c) = t" "confidenceOf (heard t c) = c" for t c
    by (simp_all add: heard_def textOf_def confidenceOf_def)
  show ?thesis
    using e transcribe_prefers_higher_confidence [OF e, of "''schedule a meeting''" "9/10" "''namaste''" "4/10"]
      transcribe_prefers_higher_confidence [OF e, of "''kal''" "3/10" "''kal sham''" "8/10"]
      transcribe_prefers_higher_confidence [OF e, of "''hello''" "1/2" "''halo''" "1/2"]
    by (simp add: v)
qed

text \<open>
  Claim C6, as the code has it. If both attempts fail, the transcription step fails with
  the error. If only the English attempt fails, returning no result, the Hindi transcript
  and the tag \<open>hi\<close> are used exactly when the Hindi confidence is strictly positive;
  otherwise the empty English transcript and the tag \<open>en\<close> are used. If only the Hindi
  attempt fails, returning no result, the English transcript and the tag \<open>en\<close> are used
  unless the English confidence is negative.
\<close>

theorem failed_attempts:
  "(error en \<and> error hi \<longrightarrow> transcribe en hi = Inl TranscriptionError)
   \<and> (error en \<and> \<not> error hi \<and> alternative en = None \<longrightarrow>
        transcribe en hi = Inr (if 0 < confidenceOf hi then (textOf hi, ''hi'') else ([], ''en'')))
   \<and> (\<not> error en \<and> error hi \<and> alternative hi = None \<longrightarrow>
        transcribe en hi = Inr (if confidenceOf en < 0 then ([], ''hi'') else (textOf en, ''en'')))"
  by (auto simp: transcribe_def Let_def textOf_def confidenceOf_def)

theorem failed_attempts_witness:
  "error failed \<and> alternative failed = None \<and> \<not> error (heard ''kal sham'' (8/10))
   \<and> transcribe failed failed = Inl TranscriptionError
   \<and> transcribe failed (heard ''kal sham'' (8/10)) = Inr (''kal sham'', ''hi'')
   \<and> transcribe (heard ''hello'' 0) failed = Inr (''hello'', ''en'')"
proof -
  have f: "error failed" "alternative failed = None" by (simp_all add: failed_def)
  have e: "\<not> error (heard t c)" for t c by (simp add: heard_def)
  have v: "textOf (heard t c) = t" "confidenceOf (heard t c) = c" for t c
    by (simp_all add: heard_def textOf_def confidenceOf_def)
  show ?thesis
    using f e failed_attempts [of failed failed]
      failed_attempts [of failed "heard ''kal sham'' (8/10)"]
      failed_attempts [of "heard ''hello'' 0" failed]
    by (simp add: v)
qed

text \<open>
  Claim C6 as stated fails when the English attempt fails and the Hindi attempt succeeds
  with confidence 0: the Hindi transcript is not used; the empty transcript of the
  failed English attempt is, with the tag \<open>en\<close>.
\<close>

theorem one_failed_attempt_counterexample:
  "error failed \<and> \<not> error (heard ''namaste'' 0)
   \<and> textOf (heard ''namaste'' 0) = ''namaste''
   \<and> transcribe failed (heard ''namaste'' 0) = Inr ([], ''en'')"
  by (simp add: failed_def heard_def transcribe_def textOf_def confidenceOf_def)

subsection \<open>Loading the store\<close>

text \<open>
  Claim C7. Loading yields the empty collection when the file is absent. The second half
  of the claim does not hold of the code: when the file holds text that \<open>JSON.parse\<close>
  rejects, loading yields the empty collection as well, and no error reaches the caller.
\<close>

theorem loadEvents_swallows_corrupt_content:
  "loadEvents (w\<lparr>calendar_file := None\<rparr>) = []
   \<and> loadEvents (w\<lparr>calendar_file := Some Unparseable\<rparr>) = []"
  by (simp add: loadEvents_def readFile_def JSON_parse_def)

subsection \<open>Event ids\<close>

text \<open>
  Claim C8. Ids are not unique across the store's lifetime: \<open>generateId\<close> keeps no
  record of the ids it has made and reads nothing but the clock and the random source,
  so two \<open>ADD_EVENT\<close> executions that read the same millisecond and draw the same random
  number store two different events under one id.
\<close>

theorem equal_readings_store_equal_ids:
  "map id_e (loadEvents (run emptyWorld [(sampleEnv, addMeeting), (sampleEnv, addLunch)]))
     = [''m3042o004fzyo82mvy'', ''m3042o004fzyo82mvy'']
   \<and> map title (loadEvents (run emptyWorld [(sampleEnv, addMeeting), (sampleEnv, addLunch)]))
     = [Some ''Meeting with John'', Some ''Team Lunch'']"
  by (simp add: executeAction_def saveEvents_def Let_def loadEvents_saved newEvent_def
      generateId_sampleEnv emptyWorld_def addMeeting_def addLunch_def)
     (simp add: loadEvents_def readFile_def JSON_parse_def)

text \<open>
  Equal readings are the only way to equal ids among clock readings with equally many
  base-36 digits: if the \<open>ADD_EVENT\<close> executions of a sequence read pairwise different
  pairs of clock reading and random digits, the events they create carry pairwise
  different ids, whatever is deleted in between, and every event in the store after the
  sequence is one of the store before it or one of those created.
\<close>

lemma created_ids_distinct:
  assumes "distinct (map (\<lambda>step. (Date_now (fst step), substr2 (Math_random36 (fst step))))
             (filter isAdd steps))"
    and "\<forall>s\<in>set (filter isAdd steps). \<forall>s'\<in>set (filter isAdd steps).
           length (toString36 (Date_now (fst s))) = length (toString36 (Date_now (fst s')))"
  shows "distinct (map id_e (createdEvents steps))
       \<and> set (loadEvents (run w steps)) \<subseteq> set (loadEvents w) \<union> set (createdEvents steps)"
proof -
  let ?adds = "filter isAdd steps"
  let ?reading = "\<lambda>step. (Date_now (fst step), substr2 (Math_random36 (fst step)))"
  from assms(1) have d: "distinct ?adds" and inj: "inj_on ?reading (set ?adds)"
    by (simp_all add: distinct_map)
  have "inj_on (\<lambda>step. generateId (fst step)) (set ?adds)"
  proof (rule inj_onI)
    fix s s'
    assume s: "s \<in> set ?adds" and s': "s' \<in> set ?adds"
      and eq: "generateId (fst s) = generateId (fst s')"
    from assms(2) s s'
    have "length (toString36 (Date_now (fst s))) = length (toString36 (Date_now (fst s')))"
      by blast
    from generateId_eq_iff [OF this] eq have "?reading s = ?reading s'" by simp
    from inj_onD [OF inj this s s'] show "s = s'" .
  qed
  with d have "distinct (map (\<lambda>step. generateId (fst step)) ?adds)"
    by (simp add: distinct_map)
  moreover have "map id_e (createdEvents steps) = map (\<lambda>step. generateId (fst step)) ?adds"
    by (simp add: createdEvents_def newEvent_def comp_def)
  ultimately show ?thesis
    using run_stored_subset [of w steps] by simp
qed

lemma created_ids_distinct_example:
  "map id_e (createdEvents
     [(sampleEnv, addMeeting), (sampleEnv, deleteIntent ''en'' ''15:00''), (laterEnv, addLunch)])
     = [''m3042o004fzyo82mvy'', ''m3042o01pgerv2yaovo'']"
proof -
  let ?steps = "[(sampleEnv, addMeeting), (sampleEnv, deleteIntent ''en'' ''15:00''), (laterEnv, addLunch)]"
  have f: "filter isAdd ?steps = [(sampleEnv, addMeeting), (laterEnv, addLunch)]"
    by (simp add: isAdd_def addMeeting_def addLunch_def deleteIntent_def)
  have t: "toString36 (Date_now sampleEnv) = ''m3042o00''" "toString36 (Date_now laterEnv) = ''m3042o01''"
    by (simp_all add: sampleEnv_def laterEnv_def toString36.simps digit36_def)
  show ?thesis
    by (simp only: createdEvents_def f)
       (simp add: newEvent_def generateId_def t substr2_def, simp add: sampleEnv_def laterEnv_def)
qed

end
